theory Spec2Isabelle
  imports Complex_Main "HOL-Library.Multiset"
begin

section \<open>Data model\<close>

text \<open>
  The physics step of \<open>src/main.cpp\<close> (lines 114--169), over exact real arithmetic:
  every \<open>float\<close> of the source is a \<open>real\<close> here, so rounding, overflow and the
  non-finite values of IEEE arithmetic are outside the model.  A division of the source
  whose divisor is zero has no real value; the only divisor of the step that can be zero
  is the mass in the gravity pass (line 125), and the theorems whose truth would depend
  on it assume nonzero masses.
\<close>

subsection \<open>\<open>glm::vec2\<close>\<close>

datatype vec2 = Vec2 (vx: real) (vy: real)

instantiation vec2 :: ab_group_add
begin

definition zero_vec2 :: vec2 where
  "zero_vec2 = Vec2 0 0"

definition plus_vec2 :: "vec2 \<Rightarrow> vec2 \<Rightarrow> vec2" where
  "plus_vec2 a b = Vec2 (vx a + vx b) (vy a + vy b)"

definition minus_vec2 :: "vec2 \<Rightarrow> vec2 \<Rightarrow> vec2" where
  "minus_vec2 a b = Vec2 (vx a - vx b) (vy a - vy b)"

definition uminus_vec2 :: "vec2 \<Rightarrow> vec2" where
  "uminus_vec2 a = Vec2 (- vx a) (- vy a)"

instance
  by standard (simp_all add: zero_vec2_def plus_vec2_def minus_vec2_def uminus_vec2_def)

end

text \<open>\<open>glm::dot(a, b)\<close>.\<close>

definition dot :: "vec2 \<Rightarrow> vec2 \<Rightarrow> real" where
  "dot a b = vx a * vx b + vy a * vy b"

text \<open>\<open>v * s\<close>, \<open>s * v\<close> and \<open>v / s\<close> for a vector \<open>v\<close> and a scalar \<open>s\<close>.\<close>

definition vmul :: "vec2 \<Rightarrow> real \<Rightarrow> vec2" where
  "vmul v s = Vec2 (vx v * s) (vy v * s)"

definition smul :: "real \<Rightarrow> vec2 \<Rightarrow> vec2" where
  "smul s v = Vec2 (s * vx v) (s * vy v)"

definition vdiv :: "vec2 \<Rightarrow> real \<Rightarrow> vec2" where
  "vdiv v s = Vec2 (vx v / s) (vy v / s)"

subsection \<open>Particles and constants\<close>

record Particle =
  pos :: vec2
  vel :: vec2
  mass :: real

definition G :: real where
  "G = 1"

definition SOFTENING :: real where
  "SOFTENING = 1 / 100"

definition RADIUS_SCALE :: real where
  "RADIUS_SCALE = 2 / 100"

definition getRadius :: "real \<Rightarrow> real" where
  "getRadius m = m * RADIUS_SCALE"

section \<open>The physics step\<close>

subsection \<open>Gravity pass (lines 114--132)\<close>

text \<open>
  The body of the inner loop (lines 120--125): the term added to \<open>acc[i]\<close> for the
  ordered pair of particles \<open>p = particles[i]\<close> and \<open>q = particles[j]\<close>.
\<close>

definition grav_distSq :: "Particle \<Rightarrow> Particle \<Rightarrow> real" where
  "grav_distSq p q = (let diff = pos q - pos p in dot diff diff + SOFTENING)"

definition grav_force :: "Particle \<Rightarrow> Particle \<Rightarrow> real" where
  "grav_force p q = G * mass p * mass q / grav_distSq p q"

definition grav_term :: "Particle \<Rightarrow> Particle \<Rightarrow> vec2" where
  "grav_term p q =
     (let diff = pos q - pos p;
          distSq = grav_distSq p q;
          dist = sqrt distSq;
          force = grav_force p q;
          dir = vdiv diff dist
      in vmul dir (force / mass p))"

text \<open>
  The inner loop over \<open>j\<close> and the outer loop over \<open>i\<close>, each over a list of indices
  in the order they are visited; the source visits \<open>0, 1, ..., size - 1\<close> in both.
  The particles are only read.
\<close>

fun acc_inner :: "Particle list \<Rightarrow> nat \<Rightarrow> nat list \<Rightarrow> vec2 list \<Rightarrow> vec2 list" where
  "acc_inner ps i [] acc = acc"
| "acc_inner ps i (j # js) acc =
     acc_inner ps i js
       (if i = j then acc else acc[i := acc ! i + grav_term (ps ! i) (ps ! j)])"

fun acc_outer :: "Particle list \<Rightarrow> nat list \<Rightarrow> nat list \<Rightarrow> vec2 list \<Rightarrow> vec2 list" where
  "acc_outer ps [] js acc = acc"
| "acc_outer ps (i # is) js acc = acc_outer ps is js (acc_inner ps i js acc)"

definition gravity_acc_ord :: "nat list \<Rightarrow> nat list \<Rightarrow> Particle list \<Rightarrow> vec2 list" where
  "gravity_acc_ord is js ps = acc_outer ps is js (replicate (length ps) 0)"

definition gravity_acc :: "Particle list \<Rightarrow> vec2 list" where
  "gravity_acc ps = gravity_acc_ord [0..<length ps] [0..<length ps] ps"

text \<open>The velocity loop (lines 130--132).\<close>

definition apply_acc :: "real \<Rightarrow> vec2 list \<Rightarrow> Particle list \<Rightarrow> Particle list" where
  "apply_acc dt acc ps =
     fold (\<lambda>i ps. ps[i := (ps ! i)\<lparr>vel := vel (ps ! i) + vmul (acc ! i) dt\<rparr>])
       [0..<length ps] ps"

definition gravity_pass_ord ::
  "nat list \<Rightarrow> nat list \<Rightarrow> real \<Rightarrow> Particle list \<Rightarrow> Particle list" where
  "gravity_pass_ord is js dt ps = apply_acc dt (gravity_acc_ord is js ps) ps"

definition gravity_pass :: "real \<Rightarrow> Particle list \<Rightarrow> Particle list" where
  "gravity_pass dt ps = apply_acc dt (gravity_acc ps) ps"

subsection \<open>Collision pass (lines 134--164)\<close>

text \<open>The body of the inner loop for the pair \<open>i < j\<close> (lines 137--162).\<close>

definition resolve_pair :: "nat \<Rightarrow> nat \<Rightarrow> Particle list \<Rightarrow> Particle list" where
  "resolve_pair i j ps =
     (let diff = pos (ps ! j) - pos (ps ! i);
          distSq = dot diff diff;
          rSum = getRadius (mass (ps ! i)) + getRadius (mass (ps ! j))
      in if distSq < rSum * rSum then
           (let dist = sqrt distSq
            in if dist < 1 / 10000 then ps
               else
                 (let n = vdiv diff dist;
                      v1 = dot (vel (ps ! i)) n;
                      v2 = dot (vel (ps ! j)) n;
                      m1 = mass (ps ! i);
                      m2 = mass (ps ! j);
                      v1New = (v1 * (m1 - m2) + 2 * m2 * v2) / (m1 + m2);
                      v2New = (v2 * (m2 - m1) + 2 * m1 * v1) / (m1 + m2);
                      ps1 = ps[i := (ps ! i)\<lparr>vel := vel (ps ! i) + smul (v1New - v1) n\<rparr>];
                      ps2 = ps1[j := (ps1 ! j)\<lparr>vel := vel (ps1 ! j) + smul (v2New - v2) n\<rparr>];
                      penetration = rSum - dist;
                      correction = vmul n (penetration / 2);
                      ps3 = ps2[i := (ps2 ! i)\<lparr>pos := pos (ps2 ! i) - correction\<rparr>];
                      ps4 = ps3[j := (ps3 ! j)\<lparr>pos := pos (ps3 ! j) + correction\<rparr>]
                  in ps4))
         else ps)"

definition collision_pass :: "Particle list \<Rightarrow> Particle list" where
  "collision_pass ps =
     fold (\<lambda>i ps. fold (\<lambda>j ps. resolve_pair i j ps) [Suc i..<length ps] ps)
       [0..<length ps] ps"

subsection \<open>Position integration (lines 166--169) and the whole step\<close>

definition integrate :: "real \<Rightarrow> Particle list \<Rightarrow> Particle list" where
  "integrate dt ps = map (\<lambda>p. p\<lparr>pos := pos p + vmul (vel p) dt\<rparr>) ps"

definition physics_step :: "real \<Rightarrow> Particle list \<Rightarrow> Particle list" where
  "physics_step dt ps = integrate dt (collision_pass (gravity_pass dt ps))"

text \<open>Successive frames, one \<open>dt\<close> per frame (the \<open>while\<close> loop of line 109).\<close>

definition physics_steps :: "real list \<Rightarrow> Particle list \<Rightarrow> Particle list" where
  "physics_steps dts ps = fold physics_step dts ps"

subsection \<open>Observables of a particle sequence\<close>

text \<open>
  Total momentum \<open>\<Sum> mass[i] * vel[i]\<close> and total kinetic energy
  \<open>\<Sum> 1/2 * mass[i] * |vel[i]|\<^sup>2\<close>; the distance of two centres, computed as
  lines 137--142 do; and the condition under which the collision branch of lines
  145--161 runs for a pair: the test of line 141 holds and the guard of line 143 does
  not skip.
\<close>

definition momentum :: "Particle list \<Rightarrow> vec2" where
  "momentum ps = sum_list (map (\<lambda>p. smul (mass p) (vel p)) ps)"

definition kinetic_energy :: "Particle list \<Rightarrow> real" where
  "kinetic_energy ps = sum_list (map (\<lambda>p. 1 / 2 * mass p * dot (vel p) (vel p)) ps)"

definition center_dist :: "Particle \<Rightarrow> Particle \<Rightarrow> real" where
  "center_dist p q = (let diff = pos q - pos p in sqrt (dot diff diff))"

definition overlapping :: "Particle \<Rightarrow> Particle \<Rightarrow> bool" where
  "overlapping p q =
     (let diff = pos q - pos p;
          distSq = dot diff diff;
          rSum = getRadius (mass p) + getRadius (mass q)
      in distSq < rSum * rSum \<and> \<not> sqrt distSq < 1 / 10000)"

text \<open>
  The acceleration of particle \<open>i\<close> in a snapshot \<open>ps\<close> of the sequence: the sum of
  the terms of lines 120--125 over all \<open>j \<noteq> i\<close>, in ascending order of \<open>j\<close>.
\<close>

definition acc_of :: "Particle list \<Rightarrow> nat \<Rightarrow> vec2" where
  "acc_of ps i = (\<Sum>j\<leftarrow>filter (\<lambda>j. j \<noteq> i) [0..<length ps]. grav_term (ps ! i) (ps ! j))"

text \<open>
  Two particles that mirror each other about the origin: equal masses, opposite
  positions, opposite velocities.
\<close>

definition mirrored :: "Particle \<Rightarrow> Particle \<Rightarrow> bool" where
  "mirrored a b \<longleftrightarrow> mass a = mass b \<and> pos a = - pos b \<and> vel a = - vel b"

subsection \<open>The concrete two-particle scenario\<close>

text \<open>
  Particle A at \<open>(-0.1, 0)\<close> and particle B at \<open>(0.1, 0)\<close>, both of mass 1 and at
  rest; the step is taken with \<open>dt = 0.016 = 2/125\<close>.
\<close>

definition scenario_A :: Particle where
  "scenario_A = \<lparr>pos = Vec2 (- 1 / 10) 0, vel = Vec2 0 0, mass = 1\<rparr>"

definition scenario_B :: Particle where
  "scenario_B = \<lparr>pos = Vec2 (1 / 10) 0, vel = Vec2 0 0, mass = 1\<rparr>"

section \<open>Basic facts\<close>

subsection \<open>Vectors by components\<close>

lemma vx_simps [simp]:
  "vx (a + b) = vx a + vx b" "vx (a - b) = vx a - vx b" "vx (- a) = - vx a" "vx 0 = 0"
  "vx (vmul a s) = vx a * s" "vx (smul s a) = s * vx a" "vx (vdiv a s) = vx a / s"
  by (simp_all add: plus_vec2_def minus_vec2_def uminus_vec2_def zero_vec2_def
      vmul_def smul_def vdiv_def)

lemma vy_simps [simp]:
  "vy (a + b) = vy a + vy b" "vy (a - b) = vy a - vy b" "vy (- a) = - vy a" "vy 0 = 0"
  "vy (vmul a s) = vy a * s" "vy (smul s a) = s * vy a" "vy (vdiv a s) = vy a / s"
  by (simp_all add: plus_vec2_def minus_vec2_def uminus_vec2_def zero_vec2_def
      vmul_def smul_def vdiv_def)

lemma vec2_eqI: "vx a = vx b \<Longrightarrow> vy a = vy b \<Longrightarrow> a = b"
  by (rule vec2.expand) simp

subsection \<open>Frame facts: length and masses\<close>

lemma fold_invariant:
  assumes "\<And>i s. h (f i s) = h s"
  shows "h (fold f is s) = h s"
  using assms by (induction "is" arbitrary: s) simp_all

lemma map_update_same:
  assumes "f y = f (xs ! i)"
  shows "map f (xs[i := y]) = map f xs"
proof (rule nth_equalityI)
  show "length (map f (xs[i := y])) = length (map f xs)" by simp
next
  fix k assume "k < length (map f (xs[i := y]))"
  then have k: "k < length xs" by simp
  show "map f (xs[i := y]) ! k = map f xs ! k"
  proof (cases "k = i")
    case True
    with k assms show ?thesis by simp
  next
    case False
    with k show ?thesis by simp
  qed
qed

lemma length_apply_acc [simp]: "length (apply_acc dt acc ps) = length ps"
  unfolding apply_acc_def by (rule fold_invariant) simp

lemma mass_apply_acc [simp]: "map mass (apply_acc dt acc ps) = map mass ps"
  unfolding apply_acc_def by (rule fold_invariant) (simp add: map_update_same)

lemma length_resolve_pair [simp]: "length (resolve_pair i j ps) = length ps"
  by (simp add: resolve_pair_def Let_def)

lemma mass_resolve_pair [simp]: "map mass (resolve_pair i j ps) = map mass ps"
  by (simp add: resolve_pair_def Let_def map_update_same)

lemma length_collision_pass [simp]: "length (collision_pass ps) = length ps"
  unfolding collision_pass_def
  by (rule fold_invariant, rule fold_invariant) simp

lemma mass_collision_pass [simp]: "map mass (collision_pass ps) = map mass ps"
  unfolding collision_pass_def
  by (rule fold_invariant, rule fold_invariant) simp

lemma length_integrate [simp]: "length (integrate dt ps) = length ps"
  by (simp add: integrate_def)

lemma mass_integrate [simp]: "map mass (integrate dt ps) = map mass ps"
  by (simp add: integrate_def comp_def)

subsection \<open>The collision of two particles\<close>

lemma collision_pass_two: "collision_pass [a, b] = resolve_pair 0 (Suc 0) [a, b]"
proof -
  have "[0..<length [a, b]] = [0, 1]" by (simp add: upt_rec)
  moreover have "[Suc 0..<2] = [1]" by (simp add: upt_rec)
  ultimately show ?thesis
    by (simp add: collision_pass_def numeral_2_eq_2)
qed

lemma resolve_pair_miss:
  "\<not> overlapping a b \<Longrightarrow> resolve_pair 0 (Suc 0) [a, b] = [a, b]"
  by (auto simp: resolve_pair_def overlapping_def Let_def)

lemma resolve_pair_hit:
  assumes "overlapping a b"
  defines "diff \<equiv> pos b - pos a"
  defines "dst \<equiv> sqrt (dot diff diff)"
  defines "n \<equiv> vdiv diff dst"
  defines "v1 \<equiv> dot (vel a) n" and "v2 \<equiv> dot (vel b) n"
  defines "m1 \<equiv> mass a" and "m2 \<equiv> mass b"
  defines "v1New \<equiv> (v1 * (m1 - m2) + 2 * m2 * v2) / (m1 + m2)"
  defines "v2New \<equiv> (v2 * (m2 - m1) + 2 * m1 * v1) / (m1 + m2)"
  defines "correction \<equiv> vmul n ((getRadius m1 + getRadius m2 - dst) / 2)"
  shows "resolve_pair 0 (Suc 0) [a, b] =
           [a\<lparr>pos := pos a - correction, vel := vel a + smul (v1New - v1) n\<rparr>,
            b\<lparr>pos := pos b + correction, vel := vel b + smul (v2New - v2) n\<rparr>]"
  using assms(1) unfolding assms(2-)
  by (simp add: resolve_pair_def overlapping_def Let_def)

lemma overlapping_facts:
  assumes "overlapping a b"
  shows "mass a + mass b \<noteq> 0"
    and "0 < sqrt (dot (pos b - pos a) (pos b - pos a))"
proof -
  let ?d = "dot (pos b - pos a) (pos b - pos a)"
  let ?r = "getRadius (mass a) + getRadius (mass b)"
  from assms have lt: "?d < ?r * ?r" and ge: "\<not> sqrt ?d < 1 / 10000"
    by (simp_all add: overlapping_def Let_def)
  have "0 \<le> ?d" by (simp add: dot_def)
  with lt have "?r \<noteq> 0" by auto
  then show "mass a + mass b \<noteq> 0"
    by (auto simp: getRadius_def RADIUS_SCALE_def)
  from ge have "1 / 10000 \<le> sqrt ?d" by linarith
  then show "0 < sqrt ?d" by linarith
qed

lemma dot_vdiv: "dot (vdiv a s) (vdiv b s) = dot a b / (s * s)"
  by (simp add: dot_def add_divide_distrib)

lemma unit_normal:
  assumes "0 < sqrt (dot d d)"
  shows "dot (vdiv d (sqrt (dot d d))) (vdiv d (sqrt (dot d d))) = 1"
proof -
  have "0 \<le> dot d d" by (simp add: dot_def)
  then have "sqrt (dot d d) * sqrt (dot d d) = dot d d" by simp
  moreover from assms have "dot d d \<noteq> 0" by auto
  ultimately show ?thesis by (simp add: dot_vdiv)
qed

lemma elastic_momentum:
  fixes m1 m2 v1 v2 :: real
  assumes "m1 + m2 \<noteq> 0"
  shows "m1 * ((v1 * (m1 - m2) + 2 * m2 * v2) / (m1 + m2) - v1)
       + m2 * ((v2 * (m2 - m1) + 2 * m1 * v1) / (m1 + m2) - v2) = 0"
  using assms by (simp add: field_simps)

lemma elastic_energy:
  fixes m1 m2 v1 v2 :: real
  assumes "m1 + m2 \<noteq> 0"
  shows "m1 * ((v1 * (m1 - m2) + 2 * m2 * v2) / (m1 + m2))\<^sup>2
       + m2 * ((v2 * (m2 - m1) + 2 * m1 * v1) / (m1 + m2))\<^sup>2 = m1 * v1\<^sup>2 + m2 * v2\<^sup>2"
proof -
  define A where "A = v1 * (m1 - m2) + 2 * m2 * v2"
  define B where "B = v2 * (m2 - m1) + 2 * m1 * v1"
  define s where "s = m1 + m2"
  have s: "s\<^sup>2 \<noteq> 0" using assms by (simp add: s_def)
  have poly: "m1 * A\<^sup>2 + m2 * B\<^sup>2 = (m1 * v1\<^sup>2 + m2 * v2\<^sup>2) * s\<^sup>2"
    by (simp add: A_def B_def s_def power2_eq_square algebra_simps)
  have "m1 * (A / s)\<^sup>2 + m2 * (B / s)\<^sup>2 = (m1 * A\<^sup>2 + m2 * B\<^sup>2) / s\<^sup>2"
    by (simp add: power_divide add_divide_distrib)
  also have "\<dots> = m1 * v1\<^sup>2 + m2 * v2\<^sup>2"
    using s by (simp add: poly)
  finally show ?thesis by (simp only: A_def B_def s_def)
qed

lemma momentum_two: "momentum [a, b] = smul (mass a) (vel a) + smul (mass b) (vel b)"
  by (simp add: momentum_def)

lemma kinetic_energy_two:
  "kinetic_energy [a, b] =
     1 / 2 * mass a * dot (vel a) (vel a) + 1 / 2 * mass b * dot (vel b) (vel b)"
  by (simp add: kinetic_energy_def)

lemma momentum_shift:
  assumes "m1 * d1 + m2 * d2 = 0"
  shows "smul m1 (u + smul d1 n) + smul m2 (w + smul d2 n) = smul m1 u + smul m2 w"
proof (rule vec2_eqI)
  have *: "m1 * (x + d1 * c) + m2 * (y + d2 * c) = m1 * x + m2 * y" for x y c :: real
  proof -
    have "m1 * (x + d1 * c) + m2 * (y + d2 * c) = m1 * x + m2 * y + (m1 * d1 + m2 * d2) * c"
      by (simp add: algebra_simps)
    with assms show ?thesis by simp
  qed
  show "vx (smul m1 (u + smul d1 n) + smul m2 (w + smul d2 n)) = vx (smul m1 u + smul m2 w)"
    by (simp add: *)
  show "vy (smul m1 (u + smul d1 n) + smul m2 (w + smul d2 n)) = vy (smul m1 u + smul m2 w)"
    by (simp add: *)
qed

lemma energy_shift:
  assumes "dot n n = 1"
  shows "dot (u + smul d n) (u + smul d n) = dot u u + (dot u n + d)\<^sup>2 - (dot u n)\<^sup>2"
proof -
  have "dot (u + smul d n) (u + smul d n) = dot u u + 2 * d * dot u n + d\<^sup>2 * dot n n"
    by (simp add: dot_def power2_eq_square algebra_simps)
  also have "\<dots> = dot u u + (dot u n + d)\<^sup>2 - (dot u n)\<^sup>2"
    by (simp add: assms power2_eq_square algebra_simps)
  finally show ?thesis .
qed

lemma dot_vmul: "dot (vmul u r) (vmul u r) = r\<^sup>2 * dot u u"
  by (simp add: dot_def power2_eq_square algebra_simps)

lemma separation_after_correction:
  assumes "s \<noteq> 0"
  shows "(q + vmul (vdiv (q - p) s) ((r - s) / 2)) - (p - vmul (vdiv (q - p) s) ((r - s) / 2))
       = vmul (vdiv (q - p) s) r"
proof -
  have *: "(y + (y - x) / s * ((r - s) / 2)) - (x - (y - x) / s * ((r - s) / 2))
         = (y - x) / s * r" for x y :: real
    using assms by (simp add: field_simps)
  show ?thesis
  proof (rule vec2_eqI, goal_cases)
    case 1
    show ?case unfolding vx_simps by (rule *)
  next
    case 2
    show ?case unfolding vy_simps by (rule *)
  qed
qed

text \<open>A pair that overlaps, and what the collision pass makes of it.\<close>

lemma sqrt_9_10000: "sqrt (9 / 10000) = 3 / 100"
  by (rule real_sqrt_unique) (simp_all add: power2_eq_square)

lemma sqrt_4_625: "sqrt (4 / 625) = 2 / 25"
  by (rule real_sqrt_unique) (simp_all add: power2_eq_square)

lemma overlapping_example:
  "overlapping \<lparr>pos = Vec2 0 0, vel = Vec2 1 0, mass = 1\<rparr>
     \<lparr>pos = Vec2 (3 / 100) 0, vel = Vec2 0 0, mass = 3\<rparr>"
  by (simp add: overlapping_def dot_def getRadius_def RADIUS_SCALE_def sqrt_9_10000)

lemma collision_example:
  "collision_pass [\<lparr>pos = Vec2 0 0, vel = Vec2 1 0, mass = 1\<rparr>,
       \<lparr>pos = Vec2 (3 / 100) 0, vel = Vec2 0 0, mass = 3\<rparr>]
   = [\<lparr>pos = Vec2 (- 1 / 40) 0, vel = Vec2 (- 1 / 2) 0, mass = 1\<rparr>,
      \<lparr>pos = Vec2 (11 / 200) 0, vel = Vec2 (1 / 2) 0, mass = 3\<rparr>]"
  unfolding collision_pass_two resolve_pair_hit [OF overlapping_example]
  by (simp add: dot_def getRadius_def RADIUS_SCALE_def sqrt_9_10000
      plus_vec2_def minus_vec2_def vmul_def smul_def vdiv_def)

subsection \<open>The gravity pass in closed form\<close>

lemma fold_update_length [simp]:
  "length (fold (\<lambda>i xs. xs[i := f i xs]) is xs) = length xs"
  by (rule fold_invariant) simp

lemma fold_update_nth:
  assumes "distinct is" and "k < length xs"
  shows "fold (\<lambda>i xs. xs[i := f i (xs ! i)]) is xs ! k
       = (if k \<in> set is then f k (xs ! k) else xs ! k)"
  using assms
proof (induction "is" arbitrary: xs)
  case Nil
  then show ?case by simp
next
  case (Cons i "is")
  let ?xs = "xs[i := f i (xs ! i)]"
  from Cons.prems have d: "distinct is" and ni: "i \<notin> set is" and k: "k < length ?xs"
    by simp_all
  have "fold (\<lambda>i xs. xs[i := f i (xs ! i)]) (i # is) xs ! k
      = fold (\<lambda>i xs. xs[i := f i (xs ! i)]) is ?xs ! k" by simp
  also have "\<dots> = (if k \<in> set is then f k (?xs ! k) else ?xs ! k)"
    by (rule Cons.IH [OF d k])
  also have "\<dots> = (if k \<in> set (i # is) then f k (xs ! k) else xs ! k)"
  proof (cases "k = i")
    case True
    with ni Cons.prems(2) show ?thesis by simp
  next
    case False
    then show ?thesis by simp
  qed
  finally show ?case .
qed

lemma acc_inner_beyond: "length acc \<le> i \<Longrightarrow> acc_inner ps i js acc = acc"
  by (induction js) (auto simp: list_update_beyond)

lemma acc_inner_eq:
  "acc_inner ps i js acc
   = acc[i := acc ! i + (\<Sum>j\<leftarrow>filter (\<lambda>j. j \<noteq> i) js. grav_term (ps ! i) (ps ! j))]"
proof (cases "i < length acc")
  case False
  then show ?thesis by (simp add: acc_inner_beyond list_update_beyond)
next
  case True
  then show ?thesis
  proof (induction js arbitrary: acc)
    case Nil
    then show ?case by simp
  next
    case (Cons j js)
    then show ?case by (simp add: add.assoc)
  qed
qed

lemma acc_outer_fold:
  "acc_outer ps is js acc = fold (\<lambda>i acc. acc_inner ps i js acc) is acc"
  by (induction "is" arbitrary: acc) simp_all

lemma sum_list_filter_mset:
  fixes g :: "nat \<Rightarrow> vec2"
  assumes "mset js = mset ks"
  shows "(\<Sum>j\<leftarrow>filter P js. g j) = (\<Sum>j\<leftarrow>filter P ks. g j)"
proof -
  have "mset (map g (filter P js)) = mset (map g (filter P ks))"
    using assms by simp
  then have "sum_mset (mset (map g (filter P js))) = sum_mset (mset (map g (filter P ks)))"
    by simp
  then show ?thesis by (simp only: sum_mset_sum_list)
qed

lemma gravity_acc_ord_eq:
  assumes "mset is = mset [0..<length ps]" and "mset js = mset [0..<length ps]"
  shows "gravity_acc_ord is js ps = map (acc_of ps) [0..<length ps]"
proof (rule nth_equalityI)
  show "length (gravity_acc_ord is js ps) = length (map (acc_of ps) [0..<length ps])"
    by (simp add: gravity_acc_ord_def acc_outer_fold acc_inner_eq)
next
  fix k assume "k < length (gravity_acc_ord is js ps)"
  then have k: "k < length ps"
    by (simp add: gravity_acc_ord_def acc_outer_fold acc_inner_eq)
  from assms(1) have d: "distinct is" and s: "set is = {0..<length ps}"
    by (metis distinct_upt mset_eq_imp_distinct_iff, metis mset_eq_setD set_upt)
  have "gravity_acc_ord is js ps ! k
      = 0 + (\<Sum>j\<leftarrow>filter (\<lambda>j. j \<noteq> k) js. grav_term (ps ! k) (ps ! j))"
    unfolding gravity_acc_ord_def acc_outer_fold acc_inner_eq
    using k s
      fold_update_nth [OF d, of k "replicate (length ps) 0"
        "\<lambda>i a. a + (\<Sum>j\<leftarrow>filter (\<lambda>j. j \<noteq> i) js. grav_term (ps ! i) (ps ! j))"]
    by simp
  also have "\<dots> = acc_of ps k"
    by (simp add: acc_of_def sum_list_filter_mset [OF assms(2)])
  finally show "gravity_acc_ord is js ps ! k = map (acc_of ps) [0..<length ps] ! k"
    using k by simp
qed


lemma apply_acc_eq:
  "apply_acc dt acc ps
   = map (\<lambda>i. (ps ! i)\<lparr>vel := vel (ps ! i) + vmul (acc ! i) dt\<rparr>) [0..<length ps]"
proof (rule nth_equalityI)
  show "length (apply_acc dt acc ps)
      = length (map (\<lambda>i. (ps ! i)\<lparr>vel := vel (ps ! i) + vmul (acc ! i) dt\<rparr>) [0..<length ps])"
    by simp
next
  fix k assume "k < length (apply_acc dt acc ps)"
  then have k: "k < length ps" by simp
  show "apply_acc dt acc ps ! k
      = map (\<lambda>i. (ps ! i)\<lparr>vel := vel (ps ! i) + vmul (acc ! i) dt\<rparr>) [0..<length ps] ! k"
    unfolding apply_acc_def
    using k fold_update_nth [of "[0..<length ps]" k ps
        "\<lambda>i p. p\<lparr>vel := vel p + vmul (acc ! i) dt\<rparr>"]
    by simp
qed

lemma gravity_pass_ord_eq:
  assumes "mset is = mset [0..<length ps]" and "mset js = mset [0..<length ps]"
  shows "gravity_pass_ord is js dt ps
       = map (\<lambda>i. (ps ! i)\<lparr>vel := vel (ps ! i) + vmul (acc_of ps i) dt\<rparr>) [0..<length ps]"
  by (simp add: gravity_pass_ord_def apply_acc_eq gravity_acc_ord_eq [OF assms])

lemma gravity_pass_eq:
  "gravity_pass dt ps
   = map (\<lambda>i. (ps ! i)\<lparr>vel := vel (ps ! i) + vmul (acc_of ps i) dt\<rparr>) [0..<length ps]"
  using gravity_pass_ord_eq [of "[0..<length ps]" ps "[0..<length ps]" dt]
  by (simp add: gravity_pass_def gravity_pass_ord_def gravity_acc_def)

lemma grav_term_cong:
  assumes "pos p = pos p'" "mass p = mass p'" "pos q = pos q'" "mass q = mass q'"
  shows "grav_term p q = grav_term p' q'"
  using assms by (simp add: grav_term_def grav_force_def grav_distSq_def)

lemma acc_of_cong:
  assumes "map pos qs = map pos ps" and "map mass qs = map mass ps" and "i < length ps"
  shows "acc_of qs i = acc_of ps i"
proof -
  from assms(1) have len: "length qs = length ps" by (rule map_eq_imp_length_eq)
  have p: "pos (qs ! k) = pos (ps ! k)" if "k < length ps" for k
    using that len nth_map [of k qs pos] nth_map [of k ps pos] assms(1) by simp
  have m: "mass (qs ! k) = mass (ps ! k)" if "k < length ps" for k
    using that len nth_map [of k qs mass] nth_map [of k ps mass] assms(2) by simp
  have "map (\<lambda>j. grav_term (qs ! i) (qs ! j)) (filter (\<lambda>j. j \<noteq> i) [0..<length ps])
      = map (\<lambda>j. grav_term (ps ! i) (ps ! j)) (filter (\<lambda>j. j \<noteq> i) [0..<length ps])"
    using assms(3) by (intro map_cong refl grav_term_cong) (auto simp: p m)
  then show ?thesis by (simp only: acc_of_def len)
qed

lemma gravity_acc_eq: "gravity_acc ps = map (acc_of ps) [0..<length ps]"
  unfolding gravity_acc_def by (rule gravity_acc_ord_eq) simp_all

lemma gravity_acc_cong:
  assumes "map pos qs = map pos ps" and "map mass qs = map mass ps"
  shows "gravity_acc qs = gravity_acc ps"
proof -
  from assms(1) have len: "length qs = length ps" by (rule map_eq_imp_length_eq)
  show ?thesis
    unfolding gravity_acc_eq len
    by (rule map_cong [OF refl]) (simp add: acc_of_cong [OF assms])
qed

lemma upt_three: "[0..<3] = [0, Suc 0, 2]"
  by (simp add: upt_rec numeral_3_eq_3 numeral_2_eq_2)


subsection \<open>Momentum under gravity, zero time steps, mirrored pairs\<close>

lemma grav_distSq_sym: "grav_distSq p q = grav_distSq q p"
  by (simp add: grav_distSq_def dot_def algebra_simps)

lemma grav_distSq_pos: "0 < grav_distSq p q"
proof -
  have "0 \<le> dot (pos q - pos p) (pos q - pos p)" by (simp add: dot_def)
  then show ?thesis by (simp add: grav_distSq_def SOFTENING_def Let_def)
qed

lemma grav_term_antisym:
  assumes "mass p \<noteq> 0" and "mass q \<noteq> 0"
  shows "smul (mass p) (grav_term p q) = - smul (mass q) (grav_term q p)"
proof -
  define D where "D = grav_distSq p q"
  have D: "grav_distSq q p = D" by (simp add: D_def grav_distSq_sym)
  have *: "mass p * ((y - x) / sqrt D * (G * mass p * mass q / D / mass p))
         = - (mass q * ((x - y) / sqrt D * (G * mass q * mass p / D / mass q)))" for x y :: real
  proof -
    have "mass p * ((y - x) / sqrt D * (G * mass p * mass q / D / mass p))
        = (y - x) / sqrt D * (G * mass p * mass q / D)"
      using assms(1) by simp
    also have "\<dots> = - ((x - y) / sqrt D * (G * mass q * mass p / D))"
      by (simp add: diff_divide_distrib algebra_simps)
    also have "(x - y) / sqrt D * (G * mass q * mass p / D)
        = mass q * ((x - y) / sqrt D * (G * mass q * mass p / D / mass q))"
      using assms(2) by simp
    finally show ?thesis .
  qed
  show ?thesis
    by (rule vec2_eqI)
      (simp_all add: grav_term_def grav_force_def D D_def [symmetric] * del: times_divide_eq_right times_divide_eq_left divide_divide_eq_left)
qed

lemma vec2_eq_neg_zero:
  fixes a :: vec2
  assumes "a = - a"
  shows "a = 0"
proof (rule vec2_eqI)
  from assms have "vx a = - vx a" "vy a = - vy a" by (metis vx_simps(3), metis vy_simps(3))
  then show "vx a = vx 0" "vy a = vy 0" by simp_all
qed

lemma antisym_double_sum_vec:
  fixes H :: "nat \<Rightarrow> nat \<Rightarrow> vec2"
  assumes "\<And>i j. i \<in> A \<Longrightarrow> j \<in> A \<Longrightarrow> H i j = - H j i"
  shows "(\<Sum>i\<in>A. \<Sum>j\<in>A. H i j) = 0"
proof -
  have "(\<Sum>i\<in>A. \<Sum>j\<in>A. H i j) = (\<Sum>i\<in>A. \<Sum>j\<in>A. - H j i)"
    by (intro sum.cong refl assms)
  also have "\<dots> = - (\<Sum>i\<in>A. \<Sum>j\<in>A. H j i)"
    by (simp add: sum_negf)
  also have "(\<Sum>i\<in>A. \<Sum>j\<in>A. H j i) = (\<Sum>i\<in>A. \<Sum>j\<in>A. H i j)"
    by (rule sum.swap)
  finally show ?thesis by (rule vec2_eq_neg_zero)
qed

lemma smul_add: "smul m (u + w) = smul m u + smul m w"
  by (rule vec2_eqI) (simp_all add: algebra_simps)

lemma smul_vmul: "smul m (vmul a t) = vmul (smul m a) t"
  by (rule vec2_eqI) (simp_all add: algebra_simps)

lemma smul_zero [simp]: "smul m 0 = 0"
  by (rule vec2_eqI) simp_all

lemma vmul_zero_left [simp]: "vmul 0 t = 0"
  by (rule vec2_eqI) simp_all

lemma vmul_add: "vmul (u + w) t = vmul u t + vmul w t"
  by (rule vec2_eqI) (simp_all add: algebra_simps)

lemma vmul_sum_list: "(\<Sum>x\<leftarrow>xs. vmul (f x) t) = vmul (\<Sum>x\<leftarrow>xs. f x) t"
  by (induction xs) (simp_all add: vmul_add)

lemma smul_sum_list: "smul m (\<Sum>x\<leftarrow>xs. f x) = (\<Sum>x\<leftarrow>xs. smul m (f x))"
  by (induction xs) (simp_all add: smul_add)

lemma momentum_nth:
  "momentum ps = (\<Sum>i\<leftarrow>[0..<length ps]. smul (mass (ps ! i)) (vel (ps ! i)))"
proof -
  have "map (\<lambda>p. smul (mass p) (vel p)) ps
      = map (\<lambda>i. smul (mass (ps ! i)) (vel (ps ! i))) [0..<length ps]"
    by (rule nth_equalityI) simp_all
  then show ?thesis by (simp only: momentum_def)
qed

lemma weighted_acc_zero:
  assumes "\<forall>p\<in>set ps. mass p \<noteq> 0"
  shows "(\<Sum>i\<leftarrow>[0..<length ps]. smul (mass (ps ! i)) (acc_of ps i)) = 0"
proof -
  define H where "H i j = (if j \<noteq> i then smul (mass (ps ! i)) (grav_term (ps ! i) (ps ! j)) else 0)"
    for i j
  have anti: "H i j = - H j i" if "i \<in> {0..<length ps}" "j \<in> {0..<length ps}" for i j
  proof (cases "i = j")
    case True
    then show ?thesis by (simp add: H_def)
  next
    case False
    from that assms have "mass (ps ! i) \<noteq> 0" "mass (ps ! j) \<noteq> 0" by simp_all
    then have "smul (mass (ps ! i)) (grav_term (ps ! i) (ps ! j))
        = - smul (mass (ps ! j)) (grav_term (ps ! j) (ps ! i))"
      by (rule grav_term_antisym)
    with False show ?thesis by (simp add: H_def)
  qed
  have "smul (mass (ps ! i)) (acc_of ps i) = (\<Sum>j\<in>{0..<length ps}. H i j)" for i
  proof -
    have "smul (mass (ps ! i)) (acc_of ps i)
        = (\<Sum>j\<leftarrow>filter (\<lambda>j. j \<noteq> i) [0..<length ps]. smul (mass (ps ! i)) (grav_term (ps ! i) (ps ! j)))"
      by (simp add: acc_of_def smul_sum_list)
    also have "\<dots> = (\<Sum>j\<leftarrow>[0..<length ps]. H i j)"
      by (simp add: sum_list_map_filter' H_def)
    also have "\<dots> = (\<Sum>j\<in>{0..<length ps}. H i j)"
      by (simp add: interv_sum_list_conv_sum_set_nat)
    finally show ?thesis .
  qed
  then have "(\<Sum>i\<leftarrow>[0..<length ps]. smul (mass (ps ! i)) (acc_of ps i))
      = (\<Sum>i\<in>{0..<length ps}. \<Sum>j\<in>{0..<length ps}. H i j)"
    by (simp add: interv_sum_list_conv_sum_set_nat)
  also have "\<dots> = 0" by (rule antisym_double_sum_vec) (rule anti)
  finally show ?thesis .
qed

lemma vmul_zero_right [simp]: "vmul a 0 = 0"
  by (rule vec2_eqI) simp_all






lemma upt_Suc_Suc_0: "[0..<Suc (Suc 0)] = [0, Suc 0]"
  by (simp add: upt_rec)

lemma gravity_pass_two:
  "gravity_pass dt [a, b]
   = [a\<lparr>vel := vel a + vmul (grav_term a b) dt\<rparr>, b\<lparr>vel := vel b + vmul (grav_term b a) dt\<rparr>]"
  by (simp add: gravity_pass_eq acc_of_def upt_Suc_Suc_0)

lemma grav_term_mirror:
  assumes "mass a = mass b"
  shows "grav_term a b = - grav_term b a"
proof -
  define s where "s = sqrt (grav_distSq a b)"
  define c where "c = grav_force a b / mass a"
  have D: "grav_distSq b a = grav_distSq a b" by (rule grav_distSq_sym)
  have c: "grav_force b a / mass b = c"
    by (simp add: c_def grav_force_def D assms)
  have ab: "grav_term a b = vmul (vdiv (pos b - pos a) s) c"
    by (simp add: grav_term_def s_def c_def)
  have ba: "grav_term b a = vmul (vdiv (pos a - pos b) s) c"
    by (simp add: grav_term_def D s_def c)
  have *: "(y - x) / s * c = - ((x - y) / s * c)" for x y :: real
    by (simp add: diff_divide_distrib algebra_simps)
  show ?thesis
    unfolding ab ba
  proof (rule vec2_eqI, goal_cases)
    case 1
    show ?case unfolding vx_simps by (rule *)
  next
    case 2
    show ?case unfolding vy_simps by (rule *)
  qed
qed

lemma gravity_pass_mirrored:
  assumes "mirrored a b"
  shows "\<exists>a' b'. gravity_pass dt [a, b] = [a', b'] \<and> mirrored a' b'"
proof -
  from assms have "mass a = mass b" by (simp add: mirrored_def)
  then have "grav_term a b = - grav_term b a" by (rule grav_term_mirror)
  with assms have "mirrored (a\<lparr>vel := vel a + vmul (grav_term a b) dt\<rparr>)
      (b\<lparr>vel := vel b + vmul (grav_term b a) dt\<rparr>)"
    by (auto simp: mirrored_def intro!: vec2_eqI)
  then show ?thesis unfolding gravity_pass_two by blast
qed

lemma integrate_mirrored:
  assumes "mirrored a b"
  shows "\<exists>a' b'. integrate dt [a, b] = [a', b'] \<and> mirrored a' b'"
proof -
  from assms have "mirrored (a\<lparr>pos := pos a + vmul (vel a) dt\<rparr>) (b\<lparr>pos := pos b + vmul (vel b) dt\<rparr>)"
    by (auto simp: mirrored_def intro!: vec2_eqI)
  then show ?thesis by (simp add: integrate_def)
qed

lemma dot_uminus_left: "dot (- u) n = - dot u n"
  by (simp add: dot_def)

lemma equal_mass_exchange:
  fixes m v1 v2 :: real
  assumes "m + m \<noteq> 0"
  shows "(v1 * (m - m) + 2 * m * v2) / (m + m) = v2"
  using assms by (simp add: field_simps)

lemma collision_pass_mirrored:
  assumes "mirrored a b"
  shows "\<exists>a' b'. collision_pass [a, b] = [a', b'] \<and> mirrored a' b'"
proof (cases "overlapping a b")
  case False
  with assms show ?thesis by (simp add: collision_pass_two resolve_pair_miss)
next
  case True
  from assms have m: "mass a = mass b" and v: "vel a = - vel b" and p: "pos a = - pos b"
    by (simp_all add: mirrored_def)
  from overlapping_facts(1) [OF True] m have mm: "mass b + mass b \<noteq> 0" by simp
  define n where "n = vdiv (pos b - pos a) (sqrt (dot (pos b - pos a) (pos b - pos a)))"
  define c where "c = vmul n ((getRadius (mass a) + getRadius (mass b)
      - sqrt (dot (pos b - pos a) (pos b - pos a))) / 2)"
  define v2 where "v2 = dot (vel b) n"
  have v1: "dot (vel a) n = - v2" by (simp add: v dot_uminus_left v2_def)
  have w1: "((- v2) * (mass b - mass b) + 2 * mass b * v2) / (mass b + mass b) = v2"
    by (rule equal_mass_exchange [OF mm])
  have w2: "(v2 * (mass b - mass b) + 2 * mass b * (- v2)) / (mass b + mass b) = - v2"
    by (rule equal_mass_exchange [OF mm])
  have eq: "collision_pass [a, b]
      = [a\<lparr>pos := pos a - c, vel := vel a + smul (v2 - (- v2)) n\<rparr>,
         b\<lparr>pos := pos b + c, vel := vel b + smul ((- v2) - v2) n\<rparr>]"
    unfolding collision_pass_two resolve_pair_hit [OF True]
    unfolding n_def [symmetric] m v1 v2_def [symmetric] w1 w2 c_def [symmetric, unfolded m]
    by simp
  have "mirrored (a\<lparr>pos := pos a - c, vel := vel a + smul (v2 - (- v2)) n\<rparr>)
      (b\<lparr>pos := pos b + c, vel := vel b + smul ((- v2) - v2) n\<rparr>)"
    using m v p by (auto simp: mirrored_def intro!: vec2_eqI)
  with eq show ?thesis by blast
qed

lemma physics_step_mirrored:
  assumes "mirrored a b"
  shows "\<exists>a' b'. physics_step dt [a, b] = [a', b'] \<and> mirrored a' b'"
proof -
  from gravity_pass_mirrored [OF assms] obtain a1 b1
    where 1: "gravity_pass dt [a, b] = [a1, b1]" "mirrored a1 b1" by blast
  from collision_pass_mirrored [OF 1(2)] obtain a2 b2
    where 2: "collision_pass [a1, b1] = [a2, b2]" "mirrored a2 b2" by blast
  from integrate_mirrored [OF 2(2)] obtain a3 b3
    where 3: "integrate dt [a2, b2] = [a3, b3]" "mirrored a3 b3" by blast
  from 1 2 3 show ?thesis by (simp add: physics_step_def)
qed

lemma physics_steps_mirrored:
  assumes "mirrored a b"
  shows "\<exists>a' b'. physics_steps dts [a, b] = [a', b'] \<and> mirrored a' b'"
  using assms
proof (induction dts arbitrary: a b)
  case Nil
  then show ?case by (simp add: physics_steps_def)
next
  case (Cons dt dts)
  from physics_step_mirrored [OF Cons.prems] obtain a1 b1
    where 1: "physics_step dt [a, b] = [a1, b1]" "mirrored a1 b1" by blast
  from Cons.IH [OF 1(2)] 1(1) show ?case by (simp add: physics_steps_def)
qed

subsection \<open>Coincident particles\<close>

text \<open>
  Two particles at the same position, in exact arithmetic: \<open>diff\<close> is zero, so the
  gravity terms vanish (the softened divisors are 0.01 and 0.1); the pair passes the
  test of line 141 only to be skipped by the guard of line 143; the step is the position
  integration alone.
\<close>

lemma grav_term_coincident:
  assumes "pos a = pos b"
  shows "grav_term a b = 0"
  by (rule vec2_eqI) (simp_all add: grav_term_def assms)

lemma coincident_not_overlapping:
  assumes "pos a = pos b"
  shows "\<not> overlapping a b"
  by (simp add: overlapping_def assms dot_def)

lemma coincident_pair_step:
  assumes "pos a = pos b"
  shows "physics_step dt [a, b]
       = [a\<lparr>pos := pos a + vmul (vel a) dt\<rparr>, b\<lparr>pos := pos b + vmul (vel b) dt\<rparr>]"
proof -
  have g: "gravity_pass dt [a, b] = [a, b]"
    by (simp add: gravity_pass_two grav_term_coincident assms grav_term_coincident [OF assms [symmetric]])
  show ?thesis
    unfolding physics_step_def g collision_pass_two
      resolve_pair_miss [OF coincident_not_overlapping [OF assms]]
    by (simp add: integrate_def)
qed

subsection \<open>The concrete scenario, evaluated\<close>

lemma upt_two: "[0..<2] = [0, Suc 0]"
  by (simp add: upt_rec numeral_2_eq_2)

lemma sqrt_20: "sqrt 20 = 2 * sqrt 5"
proof -
  have "sqrt 20 = sqrt (4 * 5)" by simp
  also have "\<dots> = sqrt 4 * sqrt 5" by (rule real_sqrt_mult)
  finally show ?thesis by simp
qed

lemma sqrt_5_bounds: "2236 / 1000 < sqrt 5" "sqrt 5 < 2237 / 1000"
  by (rule real_less_rsqrt, simp add: power2_eq_square)
     (rule real_less_lsqrt, simp_all add: power2_eq_square)

lemma scenario_distSq: "grav_distSq scenario_A scenario_B = 1 / 20"
  "grav_distSq scenario_B scenario_A = 1 / 20"
  by (simp_all add: grav_distSq_def scenario_A_def scenario_B_def dot_def SOFTENING_def)

lemma scenario_force: "grav_force scenario_A scenario_B = 20"
  "grav_force scenario_B scenario_A = 20"
  by (simp_all add: grav_force_def scenario_distSq G_def) (simp_all add: scenario_A_def scenario_B_def)

lemma scenario_term:
  "grav_term scenario_A scenario_B = Vec2 (8 * sqrt 5) 0"
  "grav_term scenario_B scenario_A = Vec2 (- (8 * sqrt 5)) 0"
  by (simp_all add: grav_term_def scenario_distSq scenario_force vmul_def vdiv_def
       real_sqrt_divide sqrt_20)
    (simp_all add: scenario_A_def scenario_B_def)

lemma scenario_acc:
  "gravity_acc [scenario_A, scenario_B] = [Vec2 (8 * sqrt 5) 0, Vec2 (- (8 * sqrt 5)) 0]"
  by (simp add: gravity_acc_def gravity_acc_ord_def upt_two scenario_term
      plus_vec2_def zero_vec2_def numeral_2_eq_2)


lemma scenario_gravity_pass:
  "gravity_pass (2 / 125) [scenario_A, scenario_B] =
     [scenario_A\<lparr>vel := Vec2 (16 * sqrt 5 / 125) 0\<rparr>,
      scenario_B\<lparr>vel := Vec2 (- (16 * sqrt 5 / 125)) 0\<rparr>]"
  by (simp add: gravity_pass_def scenario_acc apply_acc_def upt_two numeral_2_eq_2)
     (simp add: scenario_A_def scenario_B_def plus_vec2_def vmul_def)

lemma scenario_no_collision:
  "\<not> overlapping (scenario_A\<lparr>vel := u\<rparr>) (scenario_B\<lparr>vel := w\<rparr>)"
  by (simp add: overlapping_def scenario_A_def scenario_B_def dot_def getRadius_def
      RADIUS_SCALE_def)

section \<open>Claims\<close>

text \<open>
  C1, as the code computes it.  In the concrete scenario the softened squared distance
  is 0.05 and the pairwise force magnitude is 20.  The direction \<open>diff / dist\<close> is
  divided by the softened distance \<open>sqrt 0.05\<close>, not by the separation 0.2, so its
  length is \<open>0.2 / sqrt 0.05\<close> and each particle accelerates toward the other at
  magnitude \<open>8 * sqrt 5\<close> (about 17.89) along x.  After one step with \<open>dt = 0.016\<close>
  the velocities are \<open>vel_A.x = 16 * sqrt 5 / 125\<close> (about +0.2862, toward B) and
  \<open>vel_B.x = - 16 * sqrt 5 / 125\<close>, no collision occurs, and each position has moved
  by \<open>vel * dt\<close>.
\<close>

theorem scenario_step:
  "grav_distSq scenario_A scenario_B = 1 / 20 \<and>
   grav_force scenario_A scenario_B = 20 \<and>
   gravity_acc [scenario_A, scenario_B] = [Vec2 (8 * sqrt 5) 0, Vec2 (- (8 * sqrt 5)) 0] \<and>
   physics_step (2 / 125) [scenario_A, scenario_B] =
     [\<lparr>pos = Vec2 (- 1 / 10 + 16 * sqrt 5 / 125 * (2 / 125)) 0,
       vel = Vec2 (16 * sqrt 5 / 125) 0, mass = 1\<rparr>,
      \<lparr>pos = Vec2 (1 / 10 - 16 * sqrt 5 / 125 * (2 / 125)) 0,
       vel = Vec2 (- (16 * sqrt 5 / 125)) 0, mass = 1\<rparr>] \<and>
   286 / 1000 < 16 * sqrt 5 / 125 \<and> 16 * sqrt 5 / 125 < 287 / 1000"
proof -
  have "physics_step (2 / 125) [scenario_A, scenario_B] =
     [\<lparr>pos = Vec2 (- 1 / 10 + 16 * sqrt 5 / 125 * (2 / 125)) 0,
       vel = Vec2 (16 * sqrt 5 / 125) 0, mass = 1\<rparr>,
      \<lparr>pos = Vec2 (1 / 10 - 16 * sqrt 5 / 125 * (2 / 125)) 0,
       vel = Vec2 (- (16 * sqrt 5 / 125)) 0, mass = 1\<rparr>]"
    unfolding physics_step_def scenario_gravity_pass collision_pass_two
      resolve_pair_miss [OF scenario_no_collision]
    by (simp add: integrate_def scenario_A_def scenario_B_def plus_vec2_def vmul_def)
  moreover have "286 / 1000 < 16 * sqrt 5 / 125" "16 * sqrt 5 / 125 < 287 / 1000"
    using sqrt_5_bounds by simp_all
  ultimately show ?thesis
    by (simp only: scenario_distSq scenario_force scenario_acc simp_thms)
qed

text \<open>
  C1, as stated, fails: the acceleration of A along x is not 20, and its velocity after
  the step is farther than 0.03 from 0.32.
\<close>

theorem scenario_counterexample:
  "vx (gravity_acc [scenario_A, scenario_B] ! 0) \<noteq> 20 \<and>
   \<not> \<bar>vx (vel (physics_step (2 / 125) [scenario_A, scenario_B] ! 0)) - 32 / 100\<bar> \<le> 3 / 100"
proof -
  have "vx (gravity_acc [scenario_A, scenario_B] ! 0) = 8 * sqrt 5"
    by (simp add: scenario_acc)
  moreover have "8 * sqrt 5 < 20" using sqrt_5_bounds by simp
  moreover have "vx (vel (physics_step (2 / 125) [scenario_A, scenario_B] ! 0))
      = 16 * sqrt 5 / 125"
    unfolding physics_step_def scenario_gravity_pass collision_pass_two
      resolve_pair_miss [OF scenario_no_collision]
    by (simp add: integrate_def)
  moreover have "16 * sqrt 5 / 125 < 29 / 100" using sqrt_5_bounds by simp
  ultimately show ?thesis by simp
qed

text \<open>
  C2.  For a sequence of exactly two particles the collision pass keeps the total vector
  momentum \<open>m1 * vel[i] + m2 * vel[j]\<close>, exactly: whether the pair collides, is
  skipped by the guard, or does not overlap.  The pass has no gravitational term.
\<close>

theorem collision_conserves_momentum:
  "momentum (collision_pass [a, b]) = momentum [a, b]"
proof (cases "overlapping a b")
  case False
  then show ?thesis by (simp add: collision_pass_two resolve_pair_miss)
next
  case True
  note m = overlapping_facts(1) [OF True]
  show ?thesis
    unfolding collision_pass_two resolve_pair_hit [OF True] momentum_two
    by (simp add: momentum_shift elastic_momentum [OF m])
qed

text \<open>An instance where the pair collides and both velocities change.\<close>

theorem collision_conserves_momentum_witness:
  "momentum (collision_pass [\<lparr>pos = Vec2 0 0, vel = Vec2 1 0, mass = 1\<rparr>,
       \<lparr>pos = Vec2 (3 / 100) 0, vel = Vec2 0 0, mass = 3\<rparr>]) = Vec2 1 0
   \<and> map vel (collision_pass [\<lparr>pos = Vec2 0 0, vel = Vec2 1 0, mass = 1\<rparr>,
       \<lparr>pos = Vec2 (3 / 100) 0, vel = Vec2 0 0, mass = 3\<rparr>])
     = [Vec2 (- 1 / 2) 0, Vec2 (1 / 2) 0]"
  using collision_conserves_momentum [of "\<lparr>pos = Vec2 0 0, vel = Vec2 1 0, mass = 1\<rparr>"
      "\<lparr>pos = Vec2 (3 / 100) 0, vel = Vec2 0 0, mass = 3\<rparr>"]
  by (simp add: collision_example momentum_two smul_def plus_vec2_def)

text \<open>
  C3.  For a sequence of exactly two particles the collision pass keeps the total
  kinetic energy \<open>1/2 * m1 * |vel[i]|\<^sup>2 + 1/2 * m2 * |vel[j]|\<^sup>2\<close>, exactly.
\<close>

theorem collision_conserves_kinetic_energy:
  "kinetic_energy (collision_pass [a, b]) = kinetic_energy [a, b]"
proof (cases "overlapping a b")
  case False
  then show ?thesis by (simp add: collision_pass_two resolve_pair_miss)
next
  case True
  note m = overlapping_facts(1) [OF True]
  note n = unit_normal [OF overlapping_facts(2) [OF True]]
  define nv where "nv = vdiv (pos b - pos a) (sqrt (dot (pos b - pos a) (pos b - pos a)))"
  define v1 where "v1 = dot (vel a) nv"
  define v2 where "v2 = dot (vel b) nv"
  define w1 where "w1 = (v1 * (mass a - mass b) + 2 * mass b * v2) / (mass a + mass b)"
  define w2 where "w2 = (v2 * (mass b - mass a) + 2 * mass a * v1) / (mass a + mass b)"
  have n1: "dot nv nv = 1" using n by (simp add: nv_def)
  have e: "mass a * w1\<^sup>2 + mass b * w2\<^sup>2 = mass a * v1\<^sup>2 + mass b * v2\<^sup>2"
    unfolding w1_def w2_def by (rule elastic_energy [OF m])
  have "kinetic_energy (collision_pass [a, b])
      = 1 / 2 * mass a * dot (vel a + smul (w1 - v1) nv) (vel a + smul (w1 - v1) nv)
      + 1 / 2 * mass b * dot (vel b + smul (w2 - v2) nv) (vel b + smul (w2 - v2) nv)"
    unfolding collision_pass_two resolve_pair_hit [OF True] kinetic_energy_two
    by (simp add: nv_def v1_def v2_def w1_def w2_def)
  also have "\<dots> = 1 / 2 * mass a * (dot (vel a) (vel a) + w1\<^sup>2 - v1\<^sup>2)
      + 1 / 2 * mass b * (dot (vel b) (vel b) + w2\<^sup>2 - v2\<^sup>2)"
    by (simp add: energy_shift [OF n1] v1_def [symmetric] v2_def [symmetric])
  also have "\<dots> = kinetic_energy [a, b] + 1 / 2 * ((mass a * w1\<^sup>2 + mass b * w2\<^sup>2)
      - (mass a * v1\<^sup>2 + mass b * v2\<^sup>2))"
    by (simp add: kinetic_energy_two algebra_simps)
  also have "\<dots> = kinetic_energy [a, b]" by (simp add: e)
  finally show ?thesis .
qed

text \<open>An instance where the pair collides and both velocities change.\<close>

theorem collision_conserves_kinetic_energy_witness:
  "kinetic_energy (collision_pass [\<lparr>pos = Vec2 0 0, vel = Vec2 1 0, mass = 1\<rparr>,
       \<lparr>pos = Vec2 (3 / 100) 0, vel = Vec2 0 0, mass = 3\<rparr>]) = 1 / 2
   \<and> map vel (collision_pass [\<lparr>pos = Vec2 0 0, vel = Vec2 1 0, mass = 1\<rparr>,
       \<lparr>pos = Vec2 (3 / 100) 0, vel = Vec2 0 0, mass = 3\<rparr>])
     = [Vec2 (- 1 / 2) 0, Vec2 (1 / 2) 0]"
  using collision_conserves_kinetic_energy [of "\<lparr>pos = Vec2 0 0, vel = Vec2 1 0, mass = 1\<rparr>"
      "\<lparr>pos = Vec2 (3 / 100) 0, vel = Vec2 0 0, mass = 3\<rparr>"]
  by (simp add: collision_example kinetic_energy_two dot_def)

text \<open>
  C5.  For a sequence of exactly two particles \<open>a\<close>, \<open>b\<close> that is detected as
  overlapping (\<open>distSq < rSum\<^sup>2\<close> and \<open>dist \<ge> 1e-4\<close>), after the collision pass the
  distance of the two centres is at least \<open>radius_i + radius_j - eps\<close>, for every
  \<open>eps \<ge> 0\<close>, where the radii are those of the detected pair \<open>a\<close>, \<open>b\<close>; the pass
  keeps both masses, so they are the radii after the pass as well.
\<close>

theorem overlap_resolved:
  assumes "overlapping a b" and "0 \<le> eps"
  shows "getRadius (mass a) + getRadius (mass b) - eps
           \<le> center_dist (collision_pass [a, b] ! 0) (collision_pass [a, b] ! 1) \<and>
         mass (collision_pass [a, b] ! 0) = mass a \<and>
         mass (collision_pass [a, b] ! 1) = mass b"
proof -
  define s where "s = sqrt (dot (pos b - pos a) (pos b - pos a))"
  define r where "r = getRadius (mass a) + getRadius (mass b)"
  have s: "0 < s" unfolding s_def by (rule overlapping_facts(2) [OF assms(1)])
  have n: "dot (vdiv (pos b - pos a) s) (vdiv (pos b - pos a) s) = 1"
    using s unfolding s_def by (rule unit_normal)
  have diff: "pos (collision_pass [a, b] ! 1) - pos (collision_pass [a, b] ! 0)
            = vmul (vdiv (pos b - pos a) s) r"
    unfolding collision_pass_two resolve_pair_hit [OF assms(1)]
    using s separation_after_correction [of s "pos b" "pos a" r]
    by (simp add: s_def r_def)
  have "center_dist (collision_pass [a, b] ! 0) (collision_pass [a, b] ! 1) = \<bar>r\<bar>"
    unfolding center_dist_def Let_def diff by (simp add: dot_vmul n)
  then have "r - eps \<le> center_dist (collision_pass [a, b] ! 0) (collision_pass [a, b] ! 1)"
    using assms(2) by simp
  moreover have "mass (collision_pass [a, b] ! 0) = mass a"
    unfolding collision_pass_two resolve_pair_hit [OF assms(1)] by simp
  moreover have "mass (collision_pass [a, b] ! 1) = mass b"
    unfolding collision_pass_two resolve_pair_hit [OF assms(1)] by simp
  ultimately show ?thesis unfolding r_def by (intro conjI)
qed

text \<open>
  An instance: radii 0.02 and 0.06, centres 0.03 apart before the pass and exactly
  0.08 apart after it.
\<close>

theorem overlap_resolved_witness:
  "overlapping \<lparr>pos = Vec2 0 0, vel = Vec2 1 0, mass = 1\<rparr>
     \<lparr>pos = Vec2 (3 / 100) 0, vel = Vec2 0 0, mass = 3\<rparr> \<and>
   (0::real) \<le> 0 \<and>
   getRadius (mass \<lparr>pos = Vec2 0 0, vel = Vec2 1 0, mass = 1\<rparr>)
     + getRadius (mass \<lparr>pos = Vec2 (3 / 100) 0, vel = Vec2 0 0, mass = 3\<rparr>) - 0
     \<le> center_dist
         (collision_pass [\<lparr>pos = Vec2 0 0, vel = Vec2 1 0, mass = 1\<rparr>,
            \<lparr>pos = Vec2 (3 / 100) 0, vel = Vec2 0 0, mass = 3\<rparr>] ! 0)
         (collision_pass [\<lparr>pos = Vec2 0 0, vel = Vec2 1 0, mass = 1\<rparr>,
            \<lparr>pos = Vec2 (3 / 100) 0, vel = Vec2 0 0, mass = 3\<rparr>] ! 1) \<and>
   center_dist
       (collision_pass [\<lparr>pos = Vec2 0 0, vel = Vec2 1 0, mass = 1\<rparr>,
          \<lparr>pos = Vec2 (3 / 100) 0, vel = Vec2 0 0, mass = 3\<rparr>] ! 0)
       (collision_pass [\<lparr>pos = Vec2 0 0, vel = Vec2 1 0, mass = 1\<rparr>,
          \<lparr>pos = Vec2 (3 / 100) 0, vel = Vec2 0 0, mass = 3\<rparr>] ! 1) = 2 / 25 \<and>
   center_dist \<lparr>pos = Vec2 0 0, vel = Vec2 1 0, mass = 1\<rparr>
       \<lparr>pos = Vec2 (3 / 100) 0, vel = Vec2 0 0, mass = 3\<rparr> = 3 / 100"
proof -
  let ?a = "\<lparr>pos = Vec2 0 0, vel = Vec2 1 0, mass = 1\<rparr>"
  let ?b = "\<lparr>pos = Vec2 (3 / 100) 0, vel = Vec2 0 0, mass = 3\<rparr>"
  have e: "(0::real) \<le> 0" by simp
  from overlap_resolved [OF overlapping_example e]
  have bound: "getRadius (mass ?a) + getRadius (mass ?b) - 0
      \<le> center_dist (collision_pass [?a, ?b] ! 0) (collision_pass [?a, ?b] ! 1)"
    by (rule conjunct1)
  have after: "center_dist (collision_pass [?a, ?b] ! 0) (collision_pass [?a, ?b] ! 1) = 2 / 25"
    unfolding collision_example
    by (simp add: center_dist_def dot_def sqrt_4_625)
  have before: "center_dist ?a ?b = 3 / 100"
    by (simp add: center_dist_def dot_def sqrt_9_10000)
  from overlapping_example e bound after before show ?thesis by (intro conjI)
qed

text \<open>
  C6.  The gravity pass computes every acceleration from the particle sequence as it
  was before the pass (the snapshot \<open>ps\<close>), and then adds \<open>acc[i] * dt\<close> to the
  velocity of every particle, changing nothing else: the result is the closed form
  below, in which \<open>acc_of ps i\<close> is taken on the snapshot.  The accelerations depend on
  the positions and masses only, not on the velocities.  Whatever order the outer loop
  visits \<open>i\<close> in and the inner loop visits \<open>j\<close> in (any two permutations of
  \<open>0, ..., size - 1\<close>), the pass gives the result of the source's ascending order.
\<close>

theorem gravity_pass_snapshot:
  assumes "mset is = mset [0..<length ps]" and "mset js = mset [0..<length ps]"
  shows "gravity_pass_ord is js dt ps = gravity_pass dt ps \<and>
         gravity_pass dt ps
           = map (\<lambda>i. (ps ! i)\<lparr>vel := vel (ps ! i) + vmul (acc_of ps i) dt\<rparr>) [0..<length ps] \<and>
         (map pos qs = map pos ps \<and> map mass qs = map mass ps
            \<longrightarrow> gravity_acc qs = gravity_acc ps)"
proof (intro conjI impI)
  show "gravity_pass_ord is js dt ps = gravity_pass dt ps"
    by (simp only: gravity_pass_ord_eq [OF assms] gravity_pass_eq)
  show "gravity_pass dt ps
      = map (\<lambda>i. (ps ! i)\<lparr>vel := vel (ps ! i) + vmul (acc_of ps i) dt\<rparr>) [0..<length ps]"
    by (rule gravity_pass_eq)
  show "gravity_acc qs = gravity_acc ps"
    if "map pos qs = map pos ps \<and> map mass qs = map mass ps"
    using that by (intro gravity_acc_cong) simp_all
qed

text \<open>
  An instance with three particles, the outer loop in the order 2, 0, 1 and the inner
  loop in the order 1, 2, 0, and a second sequence that differs in a velocity only.
\<close>

theorem gravity_pass_snapshot_witness:
  "mset [2, 0, Suc 0] = mset [0..<length [scenario_A, scenario_B, scenario_A\<lparr>pos := Vec2 0 1\<rparr>]] \<and>
   mset [Suc 0, 2, 0] = mset [0..<length [scenario_A, scenario_B, scenario_A\<lparr>pos := Vec2 0 1\<rparr>]] \<and>
   gravity_pass_ord [2, 0, Suc 0] [Suc 0, 2, 0] 1 [scenario_A, scenario_B, scenario_A\<lparr>pos := Vec2 0 1\<rparr>]
     = gravity_pass 1 [scenario_A, scenario_B, scenario_A\<lparr>pos := Vec2 0 1\<rparr>] \<and>
   gravity_acc [scenario_A\<lparr>vel := Vec2 5 5\<rparr>, scenario_B, scenario_A\<lparr>pos := Vec2 0 1\<rparr>]
     = gravity_acc [scenario_A, scenario_B, scenario_A\<lparr>pos := Vec2 0 1\<rparr>]"
proof -
  let ?ps = "[scenario_A, scenario_B, scenario_A\<lparr>pos := Vec2 0 1\<rparr>]"
  let ?qs = "[scenario_A\<lparr>vel := Vec2 5 5\<rparr>, scenario_B, scenario_A\<lparr>pos := Vec2 0 1\<rparr>]"
  have i: "mset [2, 0, Suc 0] = mset [0..<length ?ps]"
    by (simp add: upt_three)
  have j: "mset [Suc 0, 2, 0] = mset [0..<length ?ps]"
    by (simp add: upt_three)
  have c: "map pos ?qs = map pos ?ps \<and> map mass ?qs = map mass ?ps"
    by simp
  note t = gravity_pass_snapshot [OF i j, of 1 ?qs]
  from t have 1: "gravity_pass_ord [2, 0, Suc 0] [Suc 0, 2, 0] 1 ?ps = gravity_pass 1 ?ps"
    by (rule conjunct1)
  from t c have 2: "gravity_acc ?qs = gravity_acc ?ps"
    by blast
  from i j 1 2 show ?thesis by (intro conjI)
qed

text \<open>
  C7.  Two particles of equal (nonzero) mass at positions symmetric about the origin,
  both at rest: after any number of physics steps, each with its own \<open>dt\<close>, the
  sequence still has two particles with \<open>pos_i = - pos_j\<close> and \<open>vel_i = - vel_j\<close>.
  This holds under gravity alone, and also in a frame in which the pair collides.
\<close>

theorem symmetric_pair_stays_symmetric:
  assumes "mass a = mass b" and "mass a \<noteq> 0"
    and "pos a = - pos b" and "vel a = 0" and "vel b = 0"
  shows "\<exists>a' b'. physics_steps dts [a, b] = [a', b'] \<and>
           pos a' = - pos b' \<and> vel a' = - vel b'"
proof -
  from assms have "mirrored a b" by (simp add: mirrored_def)
  from physics_steps_mirrored [OF this, of dts] show ?thesis
    by (auto simp: mirrored_def)
qed

text \<open>An instance: the concrete scenario, after two frames.\<close>

theorem symmetric_pair_stays_symmetric_witness:
  "mass scenario_A = mass scenario_B \<and> mass scenario_A \<noteq> 0 \<and>
   pos scenario_A = - pos scenario_B \<and> vel scenario_A = 0 \<and> vel scenario_B = 0 \<and>
   (\<exists>a' b'. physics_steps [2 / 125, 1 / 60] [scenario_A, scenario_B] = [a', b'] \<and>
      pos a' = - pos b' \<and> vel a' = - vel b')"
proof -
  have h: "mass scenario_A = mass scenario_B" "mass scenario_A \<noteq> 0"
    "pos scenario_A = - pos scenario_B" "vel scenario_A = 0" "vel scenario_B = 0"
    by (simp_all add: scenario_A_def scenario_B_def uminus_vec2_def zero_vec2_def)
  from h symmetric_pair_stays_symmetric [OF h, of "[2 / 125, 1 / 60]"] show ?thesis
    by (intro conjI)
qed

text \<open>
  C8.  One full physics step (gravity pass, collision pass, position integration) keeps
  the number of particles and the mass of every particle, for every particle sequence
  and every \<open>dt\<close>: the masses, read in index order, are the same list before and
  after.  A particle has three fields, so only \<open>pos\<close> and \<open>vel\<close> can differ.
\<close>

theorem physics_step_frame:
  "length (physics_step dt ps) = length ps \<and> map mass (physics_step dt ps) = map mass ps"
  by (simp add: physics_step_def gravity_pass_def)

text \<open>
  C9.  The gravity pass alone conserves the total vector momentum
  \<open>\<Sum> mass[i] * vel[i]\<close>, for a particle sequence of any size and every \<open>dt\<close>, in
  exact arithmetic: the contributions of the ordered pairs \<open>(i, j)\<close> and \<open>(j, i)\<close>
  cancel in the sum.  The masses are nonzero, as line 125 divides by them.
\<close>

theorem gravity_conserves_momentum:
  assumes "\<forall>p\<in>set ps. mass p \<noteq> 0"
  shows "momentum (gravity_pass dt ps) = momentum ps"
proof -
  have "momentum (gravity_pass dt ps)
      = (\<Sum>i\<leftarrow>[0..<length ps]. smul (mass (ps ! i)) (vel (ps ! i))
            + vmul (smul (mass (ps ! i)) (acc_of ps i)) dt)"
    by (simp add: gravity_pass_eq momentum_def comp_def smul_add smul_vmul)
  also have "\<dots> = momentum ps
      + vmul (\<Sum>i\<leftarrow>[0..<length ps]. smul (mass (ps ! i)) (acc_of ps i)) dt"
    by (simp only: sum_list_addf vmul_sum_list momentum_nth [symmetric])
  also have "\<dots> = momentum ps"
    by (simp add: weighted_acc_zero [OF assms])
  finally show ?thesis .
qed

text \<open>An instance with three particles of masses 1, 3 and 2 and total momentum (1, 6).\<close>

theorem gravity_conserves_momentum_witness:
  "momentum (gravity_pass (1 / 60) [\<lparr>pos = Vec2 0 0, vel = Vec2 1 0, mass = 1\<rparr>,
        \<lparr>pos = Vec2 1 0, vel = Vec2 0 2, mass = 3\<rparr>,
        \<lparr>pos = Vec2 0 1, vel = Vec2 0 0, mass = 2\<rparr>]) = Vec2 1 6"
proof -
  let ?ps = "[\<lparr>pos = Vec2 0 0, vel = Vec2 1 0, mass = 1\<rparr>,
        \<lparr>pos = Vec2 1 0, vel = Vec2 0 2, mass = 3\<rparr>,
        \<lparr>pos = Vec2 0 1, vel = Vec2 0 0, mass = 2\<rparr>]"
  have m: "\<forall>p\<in>set ?ps. mass p \<noteq> 0" by simp
  have "momentum ?ps = Vec2 1 6"
    by (simp add: momentum_def smul_def plus_vec2_def zero_vec2_def)
  with gravity_conserves_momentum [OF m, of "1 / 60"] show ?thesis by simp
qed



end
